theory Spec2Isabelle
  imports Main "HOL-Library.AList"
begin

section \<open>Python values, dictionaries and the store\<close>

text \<open>
  The serializer of \<^verbatim>\<open>src/dynamic_rest/serializers.py\<close> works on Python values. A
  request is \<^verbatim>\<open>None\<close>, a boolean, or a dictionary from field names to such values.
  Dictionaries are objects: two variables can hold the same dictionary, and an item
  assignment through one is seen through the other. A dictionary value is therefore an
  address into a store. A dictionary's content is an association list in iteration
  order; Python keeps its keys unique.
\<close>

type_synonym addr = nat

datatype pyval = PyNone | PyBool bool | PyDict addr

type_synonym pydict = "(string \<times> pyval) list"

record heap =
  store :: "addr \<Rightarrow> pydict"
  free :: addr

datatype error = TypeError | AttributeError | KeyError string | ParseError string

text \<open>\<^verbatim>\<open>bool(v)\<close>: \<^verbatim>\<open>None\<close>, \<^verbatim>\<open>False\<close> and the empty dictionary are falsy.\<close>

fun truthy :: "heap \<Rightarrow> pyval \<Rightarrow> bool" where
  "truthy h PyNone = False"
| "truthy h (PyBool b) = b"
| "truthy h (PyDict a) = (store h a \<noteq> [])"

text \<open>\<^verbatim>\<open>v == True\<close> and \<^verbatim>\<open>v == False\<close>: a dictionary and \<^verbatim>\<open>None\<close> equal neither.\<close>

fun eq_bool :: "pyval \<Rightarrow> bool \<Rightarrow> bool" where
  "eq_bool PyNone b = False"
| "eq_bool (PyBool a) b = (a = b)"
| "eq_bool (PyDict a) b = False"

text \<open>The literal \<^verbatim>\<open>{}\<close>: a new, empty dictionary at an unused address.\<close>

definition new_dict :: "heap \<Rightarrow> pyval \<times> heap" where
  "new_dict h = (PyDict (free h), h\<lparr>store := (store h)(free h := []), free := Suc (free h)\<rparr>)"

text \<open>
  \<^verbatim>\<open>target[key] = v\<close>: on a dictionary the item is replaced in place or appended; on
  \<^verbatim>\<open>None\<close> or a boolean Python raises \<^verbatim>\<open>TypeError\<close>.
\<close>

fun setitem :: "heap \<Rightarrow> pyval \<Rightarrow> string \<Rightarrow> pyval \<Rightarrow> error + heap" where
  "setitem h (PyDict a) key v = Inr (h\<lparr>store := (store h)(a := AList.update key v (store h a))\<rparr>)"
| "setitem h PyNone key v = Inl TypeError"
| "setitem h (PyBool b) key v = Inl TypeError"

text \<open>\<^verbatim>\<open>target.iteritems()\<close> and \<^verbatim>\<open>target.get(key, default)\<close>: only a dictionary has them.\<close>

fun iteritems :: "heap \<Rightarrow> pyval \<Rightarrow> error + pydict" where
  "iteritems h (PyDict a) = Inr (store h a)"
| "iteritems h PyNone = Inl AttributeError"
| "iteritems h (PyBool b) = Inl AttributeError"

fun get_default :: "heap \<Rightarrow> pyval \<Rightarrow> string \<Rightarrow> pyval \<Rightarrow> error + pyval" where
  "get_default h (PyDict a) key d = Inr (case map_of (store h a) key of None \<Rightarrow> d | Some v \<Rightarrow> v)"
| "get_default h PyNone key d = Inl AttributeError"
| "get_default h (PyBool b) key d = Inl AttributeError"

section \<open>Serializers and fields\<close>

text \<open>
  The inner class \<^verbatim>\<open>Meta\<close>: \<^verbatim>\<open>name\<close>, \<^verbatim>\<open>plural_name\<close> and \<^verbatim>\<open>deferred_fields\<close>, each
  of which a serializer class may leave out.
\<close>

record meta =
  name :: "string option"
  plural_name :: "string option"
  deferred_fields :: "string list option"

text \<open>
  A serializer object holds its identity, its \<^verbatim>\<open>Meta\<close>, the field set that the base
  class's \<^verbatim>\<open>get_fields\<close> builds for it (an ordered dictionary from names to field
  objects), and the three attributes that \<^verbatim>\<open>__init__\<close> sets. A field object is one of
  the kinds that \<^verbatim>\<open>get_fields\<close> tells apart by \<^verbatim>\<open>isinstance\<close>; every kind carries its
  \<^verbatim>\<open>deferred\<close> attribute (\<open>None\<close> when the object has no such attribute).
  \<^item> \<open>Field\<close>: any other field.
  \<^item> \<open>NestedSerializer\<close>: a \<^verbatim>\<open>BaseSerializer\<close> that is no \<^verbatim>\<open>ListSerializer\<close>; the field
    is itself the serializer.
  \<^item> \<open>ListSerializer\<close>: a \<^verbatim>\<open>ListSerializer\<close>, with its \<^verbatim>\<open>child\<close>.
  \<^item> \<open>DynamicRelationField\<close>: its \<^verbatim>\<open>parent\<close> (the identity of a serializer, once set)
    and its \<^verbatim>\<open>serializer\<close>, which is no \<^verbatim>\<open>ListSerializer\<close>.
  \<^item> \<open>DynamicRelationFieldMany\<close>: a \<^verbatim>\<open>DynamicRelationField\<close> whose \<^verbatim>\<open>serializer\<close> is a
    \<^verbatim>\<open>ListSerializer\<close> (given by that list serializer's child), and the field's own
    \<^verbatim>\<open>child\<close> attribute when it has one. The class \<^verbatim>\<open>DynamicRelationField\<close> is defined
    in the module \<^verbatim>\<open>dynamic_rest.fields\<close>; what its \<^verbatim>\<open>serializer\<close> and \<^verbatim>\<open>child\<close>
    attributes hold is a parameter of the field here.
\<close>

datatype serializer =
  Serializer (ident: nat) (Meta: meta) (base_fields: "(string \<times> field) list")
    (request_fields: pyval) (include_fields: "string list") (exclude_fields: "string list")
and field =
    Field "pyval option"
  | NestedSerializer "pyval option" serializer
  | ListSerializer "pyval option" serializer
  | DynamicRelationField "pyval option" "nat option" serializer
  | DynamicRelationFieldMany "pyval option" "nat option" serializer "serializer option"

type_synonym fields = "(string \<times> field) list"

text \<open>The assignment \<^verbatim>\<open>inject.request_fields = v\<close>.\<close>

definition set_request_fields :: "pyval \<Rightarrow> serializer \<Rightarrow> serializer" where
  "set_request_fields v s =
     Serializer (ident s) (Meta s) (base_fields s) v (include_fields s) (exclude_fields s)"

text \<open>\<^verbatim>\<open>getattr(field, 'deferred', None)\<close>.\<close>

fun getattr_deferred :: "field \<Rightarrow> pyval" where
  "getattr_deferred (Field d) = (case d of None \<Rightarrow> PyNone | Some v \<Rightarrow> v)"
| "getattr_deferred (NestedSerializer d c) = (case d of None \<Rightarrow> PyNone | Some v \<Rightarrow> v)"
| "getattr_deferred (ListSerializer d c) = (case d of None \<Rightarrow> PyNone | Some v \<Rightarrow> v)"
| "getattr_deferred (DynamicRelationField d p c) = (case d of None \<Rightarrow> PyNone | Some v \<Rightarrow> v)"
| "getattr_deferred (DynamicRelationFieldMany d p l c) = (case d of None \<Rightarrow> PyNone | Some v \<Rightarrow> v)"

text \<open>
  The keyword argument \<^verbatim>\<open>context\<close>, which the base class stores as \<^verbatim>\<open>self._context\<close>:
  the three keys that \<^verbatim>\<open>__init__\<close> reads, each possibly absent.
\<close>

record pycontext =
  ctx_request_fields :: "pyval option"
  ctx_include_fields :: "string list option"
  ctx_exclude_fields :: "string list option"

section \<open>The constructor\<close>

text \<open>
  The loops \<^verbatim>\<open>for name in names: self.request_fields[name] = v\<close> of \<^verbatim>\<open>__init__\<close>.
\<close>

fun setitem_all :: "heap \<Rightarrow> pyval \<Rightarrow> string list \<Rightarrow> pyval \<Rightarrow> error + heap" where
  "setitem_all h target [] v = Inr h"
| "setitem_all h target (n # ns) v =
     (case setitem h target n v of
        Inl e \<Rightarrow> Inl e
      | Inr h' \<Rightarrow> setitem_all h' target ns v)"

text \<open>\<^verbatim>\<open>names or self._context.get(key, [])\<close>: \<^verbatim>\<open>None\<close> and the empty list are falsy.\<close>

definition names_or :: "string list option \<Rightarrow> string list option \<Rightarrow> string list" where
  "names_or arg from_context =
     (case arg of
        Some (n # ns) \<Rightarrow> n # ns
      | _ \<Rightarrow> (case from_context of None \<Rightarrow> [] | Some l \<Rightarrow> l))"

text \<open>
  \<^verbatim>\<open>request_fields or self._context.get('request_fields', {})\<close>: the argument when it
  is truthy, otherwise the context's value, otherwise a new empty dictionary (the
  literal of the default is allocated when the default is taken).
\<close>

definition request_or :: "heap \<Rightarrow> pyval \<Rightarrow> pyval option \<Rightarrow> pyval \<times> heap" where
  "request_or h arg from_context =
     (if truthy h arg then (arg, h)
      else (case from_context of
              Some v \<Rightarrow> (v, h)
            | None \<Rightarrow> new_dict h))"

text \<open>
  \<^verbatim>\<open>__init__(self, instance, include_fields, exclude_fields, request_fields, **kwargs)\<close>.
  The identity, \<^verbatim>\<open>Meta\<close> and base field set belong to the object and its class; the
  context is the keyword argument. The result is the constructed serializer and the store
  after the two merge loops, or the exception that ended the constructor.
\<close>

definition init ::
  "heap \<Rightarrow> nat \<Rightarrow> meta \<Rightarrow> fields \<Rightarrow> pycontext \<Rightarrow>
   string list option \<Rightarrow> string list option \<Rightarrow> pyval \<Rightarrow> error + (serializer \<times> heap)" where
  "init h i m fs ctx include_arg exclude_arg request_arg =
     (let (rf, h1) = request_or h request_arg (ctx_request_fields ctx);
          inc = names_or include_arg (ctx_include_fields ctx);
          exc = names_or exclude_arg (ctx_exclude_fields ctx)
      in case setitem_all h1 rf inc (PyBool True) of
           Inl e \<Rightarrow> Inl e
         | Inr h2 \<Rightarrow>
             (case setitem_all h2 rf exc (PyBool False) of
                Inl e \<Rightarrow> Inl e
              | Inr h3 \<Rightarrow> Inr (Serializer i m fs rf inc exc, h3)))"

section \<open>Names\<close>

text \<open>\<^verbatim>\<open>get_name\<close>: \<^verbatim>\<open>self.Meta.name\<close>, an \<^verbatim>\<open>AttributeError\<close> when it is not declared.\<close>

definition get_name :: "serializer \<Rightarrow> error + string" where
  "get_name s = (case name (Meta s) of None \<Rightarrow> Inl AttributeError | Some n \<Rightarrow> Inr n)"

text \<open>
  \<^verbatim>\<open>get_plural_name\<close>: \<^verbatim>\<open>getattr(self.Meta, 'plural_name', self.get_name() + 's')\<close>.
  Python evaluates the default before the call, so \<^verbatim>\<open>get_name\<close> runs (and may raise)
  also when \<^verbatim>\<open>plural_name\<close> is declared.
\<close>

definition get_plural_name :: "serializer \<Rightarrow> error + string" where
  "get_plural_name s =
     (case get_name s of
        Inl e \<Rightarrow> Inl e
      | Inr n \<Rightarrow> Inr (case plural_name (Meta s) of None \<Rightarrow> n @ ''s'' | Some p \<Rightarrow> p))"

section \<open>Field resolution\<close>

text \<open>\<^verbatim>\<open>id_only\<close>: \<^verbatim>\<open>self.request_fields == True\<close>.\<close>

definition id_only :: "serializer \<Rightarrow> bool" where
  "id_only s = eq_bool (request_fields s) True"

text \<open>\<^verbatim>\<open>get_all_fields\<close>: the base class's field set.\<close>

definition get_all_fields :: "serializer \<Rightarrow> fields" where
  "get_all_fields s = base_fields s"

text \<open>
  The fields deferred by default: the names of the field set whose field has
  \<^verbatim>\<open>deferred == True\<close> or that \<^verbatim>\<open>Meta.deferred_fields\<close> lists. The Python set is a list
  without duplicates here.
\<close>

definition meta_deferred :: "serializer \<Rightarrow> string list" where
  "meta_deferred s = (case deferred_fields (Meta s) of None \<Rightarrow> [] | Some l \<Rightarrow> remdups l)"

definition default_deferred :: "serializer \<Rightarrow> fields \<Rightarrow> string list" where
  "default_deferred s serializer_fields =
     remdups (map fst (filter (\<lambda>(n, f). eq_bool (getattr_deferred f) True \<or> n \<in> set (meta_deferred s))
                         serializer_fields))"

text \<open>The message of the \<^verbatim>\<open>ParseError\<close>: \<^verbatim>\<open>"'%s' is not a valid field name for '%s'"\<close>.\<close>

definition invalid_field_message :: "string \<Rightarrow> string \<Rightarrow> string" where
  "invalid_field_message n entity =
     [CHR 0x27] @ n @ [CHR 0x27] @ '' is not a valid field name for '' @ [CHR 0x27] @ entity @ [CHR 0x27]"

text \<open>
  The loop over \<^verbatim>\<open>request_fields.iteritems()\<close>: an unknown name raises the
  \<^verbatim>\<open>ParseError\<close> (building its message reads \<^verbatim>\<open>self.Meta.name\<close>, which raises
  \<^verbatim>\<open>AttributeError\<close> when the name is not declared); otherwise the name leaves or
  enters the deferred set.
\<close>

fun apply_overrides :: "serializer \<Rightarrow> fields \<Rightarrow> pydict \<Rightarrow> string list \<Rightarrow> error + string list" where
  "apply_overrides s serializer_fields [] deferred = Inr deferred"
| "apply_overrides s serializer_fields ((n, include) # rest) deferred =
     (if n \<notin> fst ` set serializer_fields then
        (case name (Meta s) of
           None \<Rightarrow> Inl AttributeError
         | Some entity \<Rightarrow> Inl (ParseError (invalid_field_message n entity)))
      else if \<not> eq_bool include False \<and> n \<in> set deferred then
        apply_overrides s serializer_fields rest (removeAll n deferred)
      else if eq_bool include False then
        apply_overrides s serializer_fields rest (List.insert n deferred)
      else apply_overrides s serializer_fields rest deferred)"

text \<open>
  \<^verbatim>\<open>for name in deferred: serializer_fields.pop(name)\<close>; \<^verbatim>\<open>pop\<close> of a missing key
  raises \<^verbatim>\<open>KeyError\<close>.
\<close>

fun pop_all :: "string list \<Rightarrow> fields \<Rightarrow> error + fields" where
  "pop_all [] serializer_fields = Inr serializer_fields"
| "pop_all (n # ns) serializer_fields =
     (if n \<in> fst ` set serializer_fields then pop_all ns (AList.delete n serializer_fields)
      else Inl (KeyError n))"

text \<open>
  The body of the injection loop for one field. \<^verbatim>\<open>inject\<close> is the field itself for a
  serializer, the \<^verbatim>\<open>serializer\<close> of a relation field (whose \<^verbatim>\<open>parent\<close> is set first),
  and \<^verbatim>\<open>field.child\<close> when that is a list serializer; a serializer object is truthy.
  The value assigned is \<^verbatim>\<open>request_fields.get(name, True)\<close>.
\<close>

fun inject_field :: "heap \<Rightarrow> serializer \<Rightarrow> string \<Rightarrow> field \<Rightarrow> error + field" where
  "inject_field h self n (Field d) = Inr (Field d)"
| "inject_field h self n (NestedSerializer d c) =
     (case get_default h (request_fields self) n (PyBool True) of
        Inl e \<Rightarrow> Inl e
      | Inr v \<Rightarrow> Inr (NestedSerializer d (set_request_fields v c)))"
| "inject_field h self n (ListSerializer d c) =
     (case get_default h (request_fields self) n (PyBool True) of
        Inl e \<Rightarrow> Inl e
      | Inr v \<Rightarrow> Inr (ListSerializer d (set_request_fields v c)))"
| "inject_field h self n (DynamicRelationField d p c) =
     (case get_default h (request_fields self) n (PyBool True) of
        Inl e \<Rightarrow> Inl e
      | Inr v \<Rightarrow> Inr (DynamicRelationField d (Some (ident self)) (set_request_fields v c)))"
| "inject_field h self n (DynamicRelationFieldMany d p l None) = Inl AttributeError"
| "inject_field h self n (DynamicRelationFieldMany d p l (Some c)) =
     (case get_default h (request_fields self) n (PyBool True) of
        Inl e \<Rightarrow> Inl e
      | Inr v \<Rightarrow> Inr (DynamicRelationFieldMany d (Some (ident self)) l (Some (set_request_fields v c))))"

fun inject_all :: "heap \<Rightarrow> serializer \<Rightarrow> fields \<Rightarrow> error + fields" where
  "inject_all h self [] = Inr []"
| "inject_all h self ((n, f) # rest) =
     (case inject_field h self n f of
        Inl e \<Rightarrow> Inl e
      | Inr f' \<Rightarrow>
          (case inject_all h self rest of
             Inl e \<Rightarrow> Inl e
           | Inr rest' \<Rightarrow> Inr ((n, f') # rest')))"

text \<open>
  \<^verbatim>\<open>if request_fields: for name, include in request_fields.iteritems(): ...\<close>
\<close>

definition request_overrides :: "heap \<Rightarrow> serializer \<Rightarrow> fields \<Rightarrow> string list \<Rightarrow> error + string list" where
  "request_overrides h s serializer_fields deferred =
     (if truthy h (request_fields s) then
        (case iteritems h (request_fields s) of
           Inl e \<Rightarrow> Inl e
         | Inr items \<Rightarrow> apply_overrides s serializer_fields items deferred)
      else Inr deferred)"

text \<open>\<^verbatim>\<open>get_fields\<close>: the resolved field set, or the exception raised.\<close>

definition get_fields :: "heap \<Rightarrow> serializer \<Rightarrow> error + fields" where
  "get_fields h s =
     (if id_only s then Inr []
      else
        let serializer_fields = base_fields s;
            deferred = default_deferred s serializer_fields
        in case request_overrides h s serializer_fields deferred of
             Inl e \<Rightarrow> Inl e
           | Inr deferred' \<Rightarrow>
               (case pop_all deferred' serializer_fields of
                  Inl e \<Rightarrow> Inl e
                | Inr remaining \<Rightarrow> inject_all h s remaining))"

section \<open>Representation\<close>

text \<open>
  Representation values: what a field serializes to, and an instance with its primary
  key. The base class's \<^verbatim>\<open>to_representation\<close> belongs to the framework and is a
  parameter: it returns an ordered dictionary or raises.
\<close>

datatype rval = RNull | RInt int | RStr string | RList "rval list" | RDict "(string \<times> rval) list"

record model_instance =
  pk :: rval

definition to_representation ::
  "serializer \<Rightarrow> (model_instance \<Rightarrow> error + (string \<times> rval) list) \<Rightarrow> model_instance \<Rightarrow> error + rval" where
  "to_representation s super_to_representation inst =
     (if id_only s then Inr (pk inst)
      else
        (case super_to_representation inst of
           Inl e \<Rightarrow> Inl e
         | Inr representation \<Rightarrow>
             (case get_plural_name s of
                Inl e \<Rightarrow> Inl e
              | Inr plural \<Rightarrow>
                  Inr (RDict (AList.update ''_pk'' (pk inst)
                                (AList.update ''_name'' (RStr plural) representation))))))"

text \<open>
  The serializer that the injection loop assigns to, for each kind of field (none for a
  plain field or a relation field over a list serializer that has no \<^verbatim>\<open>child\<close>).
\<close>

fun injected :: "field \<Rightarrow> serializer option" where
  "injected (Field d) = None"
| "injected (NestedSerializer d c) = Some c"
| "injected (ListSerializer d c) = Some c"
| "injected (DynamicRelationField d p c) = Some c"
| "injected (DynamicRelationFieldMany d p l c) = c"

text \<open>The directive that a serializer's request holds for a name, if any.\<close>

definition directive :: "heap \<Rightarrow> serializer \<Rightarrow> string \<Rightarrow> pyval option" where
  "directive h s n =
     (case request_fields s of
        PyDict a \<Rightarrow> map_of (store h a) n
      | _ \<Rightarrow> None)"

text \<open>Python keeps the keys of a dictionary unique.\<close>

definition unique_keys :: "heap \<Rightarrow> pyval \<Rightarrow> bool" where
  "unique_keys h v = (case v of PyDict a \<Rightarrow> distinct (map fst (store h a)) | _ \<Rightarrow> True)"

section \<open>Example schemas\<close>

text \<open>
  The entities of the specification's scenarios: \<open>Person{name, age, email}\<close> with
  \<open>email\<close> deferred by default and the plural name \<open>people\<close>, and \<open>Post{title, author}\<close>
  whose \<open>author\<close> is a relation to a person.
\<close>

definition person_meta :: meta where
  "person_meta = \<lparr>name = Some ''person'', plural_name = Some ''people'', deferred_fields = None\<rparr>"

definition person_fields :: fields where
  "person_fields =
     [(''name'', Field None), (''age'', Field None), (''email'', Field (Some (PyBool True)))]"

definition post_meta :: meta where
  "post_meta = \<lparr>name = Some ''post'', plural_name = None, deferred_fields = Some [''body'']\<rparr>"

definition author_serializer :: serializer where
  "author_serializer = Serializer 1 person_meta person_fields (PyDict 7) [''name''] []"

definition post_fields :: fields where
  "post_fields =
     [(''title'', Field None), (''body'', Field None),
      (''author'', DynamicRelationField None None author_serializer)]"

definition no_context :: pycontext where
  "no_context = \<lparr>ctx_request_fields = None, ctx_include_fields = None, ctx_exclude_fields = None\<rparr>"

text \<open>A store whose dictionaries are all empty, and one holding a request at address 0.\<close>

definition empty_heap :: heap where
  "empty_heap = \<lparr>store = (\<lambda>a. []), free = 0\<rparr>"

definition heap_with :: "pydict \<Rightarrow> heap" where
  "heap_with d = \<lparr>store = (\<lambda>a. [])(0 := d), free = 1\<rparr>"

definition some_instance :: model_instance where
  "some_instance = \<lparr>pk = RInt 42\<rparr>"

text \<open>
  A store for the request \<^verbatim>\<open>{title: False, author: {email: True}}\<close> on a post: the outer
  dictionary at address 0, the nested one at address 1, and at address 7 the dictionary
  that the author's serializer was constructed with.
\<close>

definition nested_heap :: heap where
  "nested_heap =
     \<lparr>store = (\<lambda>a. [])(0 := [(''title'', PyBool False), (''author'', PyDict 1)],
                           1 := [(''email'', PyBool True)],
                           7 := [(''name'', PyBool True)]),
      free = 8\<rparr>"

text \<open>A \<^verbatim>\<open>Meta\<close> that declares a plural name but no \<^verbatim>\<open>name\<close>.\<close>

definition nameless_meta :: meta where
  "nameless_meta = \<lparr>name = None, plural_name = Some ''people'', deferred_fields = None\<rparr>"

section \<open>The merge loops of the constructor\<close>

lemma setitem_all_dict:
  "setitem_all h (PyDict a) ns v =
     Inr (h\<lparr>store := (store h)(a := fold (\<lambda>n. AList.update n v) ns (store h a))\<rparr>)"
  by (induction ns arbitrary: h) auto

lemma setitem_all_error:
  "setitem_all h target ns v = Inl e \<Longrightarrow> e = TypeError"
  by (cases target; cases ns) (auto simp: setitem_all_dict)

section \<open>Identifier-only mode\<close>

text \<open>
  Claim C4. A serializer whose \<^verbatim>\<open>request_fields\<close> is the boolean \<^verbatim>\<open>True\<close> represents an
  instance as exactly its primary key, whatever its \<^verbatim>\<open>Meta\<close>, its fields and their
  deferred declarations are, and resolves the empty field set; the constructor called
  with \<^verbatim>\<open>True\<close> and no name lists builds such a serializer. Identifier-only mode holds
  exactly when \<^verbatim>\<open>request_fields\<close> is \<^verbatim>\<open>True\<close>: not for a dictionary, \<^verbatim>\<open>False\<close> or
  \<^verbatim>\<open>None\<close>.
\<close>

theorem identifier_only:
  "(id_only s \<longleftrightarrow> request_fields s = PyBool True) \<and>
   to_representation (Serializer i m fs (PyBool True) inc exc) base inst = Inr (pk inst) \<and>
   get_fields h (Serializer i m fs (PyBool True) inc exc) = Inr [] \<and>
   init h i m fs no_context None None (PyBool True) = Inr (Serializer i m fs (PyBool True) [] [], h)"
proof -
  have "id_only s \<longleftrightarrow> request_fields s = PyBool True"
    unfolding id_only_def by (cases "request_fields s") auto
  moreover have "to_representation (Serializer i m fs (PyBool True) inc exc) base inst = Inr (pk inst)"
    by (simp add: to_representation_def id_only_def)
  moreover have "get_fields h (Serializer i m fs (PyBool True) inc exc) = Inr []"
    by (simp add: get_fields_def id_only_def)
  moreover have "init h i m fs no_context None None (PyBool True) = Inr (Serializer i m fs (PyBool True) [] [], h)"
    by (simp add: init_def no_context_def names_or_def request_or_def)
  ultimately show ?thesis by blast
qed

section \<open>Metadata of a representation\<close>

text \<open>
  Claim C8. Every representation produced outside identifier-only mode is a dictionary
  that holds, under \<^verbatim>\<open>_name\<close>, the plural name (\<^verbatim>\<open>Meta.plural_name\<close> when declared,
  otherwise \<^verbatim>\<open>Meta.name\<close> followed by \<open>s\<close>) and, under \<^verbatim>\<open>_pk\<close>, the primary key of the
  instance.
\<close>

theorem metadata_stamped:
  assumes "\<not> id_only s" and "to_representation s base inst = Inr r"
  shows "\<exists>rep n. r = RDict rep \<and> name (Meta s) = Some n \<and>
           map_of rep ''_name'' = Some (RStr (case plural_name (Meta s) of None \<Rightarrow> n @ ''s'' | Some p \<Rightarrow> p)) \<and>
           map_of rep ''_pk'' = Some (pk inst)"
  using assms
  by (auto simp: to_representation_def get_plural_name_def get_name_def update_conv'
           split: sum.splits option.splits)

theorem metadata_stamped_witness:
  "\<not> id_only (Serializer 0 post_meta post_fields (PyDict 0) [] []) \<and>
   to_representation (Serializer 0 post_meta post_fields (PyDict 0) [] [])
     (\<lambda>i. Inr [(''title'', RStr ''x'')]) some_instance
     = Inr (RDict [(''title'', RStr ''x''), (''_name'', RStr ''posts''), (''_pk'', RInt 42)]) \<and>
   (\<exists>rep n. RDict [(''title'', RStr ''x''), (''_name'', RStr ''posts''), (''_pk'', RInt 42)] = RDict rep \<and>
      name (Meta (Serializer 0 post_meta post_fields (PyDict 0) [] [])) = Some n \<and>
      map_of rep ''_name'' =
        Some (RStr (case plural_name (Meta (Serializer 0 post_meta post_fields (PyDict 0) [] [])) of
                      None \<Rightarrow> n @ ''s'' | Some p \<Rightarrow> p)) \<and>
      map_of rep ''_pk'' = Some (pk some_instance))"
proof -
  let ?s = "Serializer 0 post_meta post_fields (PyDict 0) [] []"
  have a: "\<not> id_only ?s" by (simp add: id_only_def)
  have b: "to_representation ?s (\<lambda>i. Inr [(''title'', RStr ''x'')]) some_instance
     = Inr (RDict [(''title'', RStr ''x''), (''_name'', RStr ''posts''), (''_pk'', RInt 42)])"
    by (simp add: to_representation_def id_only_def get_plural_name_def get_name_def
          post_meta_def some_instance_def)
  from metadata_stamped [OF a b] a b show ?thesis by blast
qed

section \<open>The constructor on an identifier-only request\<close>

text \<open>
  Claim C9. When \<^verbatim>\<open>request_fields\<close> is the boolean \<^verbatim>\<open>True\<close> and the include list or the
  exclude list passed to the constructor is not empty, the constructor builds no
  serializer: the item assignment of its merge loop on the boolean raises
  \<^verbatim>\<open>TypeError\<close>.
\<close>

theorem init_true_with_names_raises:
  assumes "include_arg = Some (n # ns) \<or> exclude_arg = Some (n # ns)"
  shows "init h i m fs ctx include_arg exclude_arg (PyBool True) = Inl TypeError"
proof -
  let ?inc = "names_or include_arg (ctx_include_fields ctx)"
  let ?exc = "names_or exclude_arg (ctx_exclude_fields ctx)"
  show ?thesis
  proof (cases ?inc)
    case Nil
    with assms have "exclude_arg = Some (n # ns)"
      by (auto simp: names_or_def)
    then have "?exc = n # ns" by (simp add: names_or_def)
    with Nil show ?thesis by (simp add: init_def request_or_def)
  next
    case (Cons x xs)
    then show ?thesis by (simp add: init_def request_or_def)
  qed
qed

theorem init_true_with_names_raises_witness:
  "(Some [''name''] = Some (''name'' # []) \<or> (None :: string list option) = Some (''name'' # [])) \<and>
   init empty_heap 0 person_meta person_fields no_context (Some [''name'']) None (PyBool True) = Inl TypeError \<and>
   init empty_heap 0 person_meta person_fields no_context None (Some [''name'']) (PyBool True) = Inl TypeError"
  using init_true_with_names_raises [of "Some [''name'']" "''name''" "[]" None empty_heap 0 person_meta person_fields no_context]
    init_true_with_names_raises [of None "''name''" "[]" "Some [''name'']" empty_heap 0 person_meta person_fields no_context]
  by simp

section \<open>Lemmas on the loops of field resolution\<close>

lemma fold_update_map_of:
  "map_of (fold (\<lambda>n. AList.update n v) ns d) k = (if k \<in> set ns then Some v else map_of d k)"
  by (induction ns arbitrary: d) (auto simp: update_conv')

lemma apply_overrides_member:
  "apply_overrides s fs items d = Inr d' \<Longrightarrow> distinct (map fst items) \<Longrightarrow>
   n \<in> set d' \<longleftrightarrow> (case map_of items n of None \<Rightarrow> n \<in> set d | Some v \<Rightarrow> v = PyBool False)"
proof (induction items arbitrary: d)
  case Nil
  then show ?case by simp
next
  case (Cons it items)
  obtain k v where it: "it = (k, v)" by (cases it)
  from Cons.prems(2) it have dist: "distinct (map fst items)" and notin: "k \<notin> fst ` set items"
    by auto
  from notin have none: "map_of items k = None"
    by (simp add: map_of_eq_None_iff)
  from Cons.prems(1) it obtain d1 where
    step: "apply_overrides s fs items d1 = Inr d'" and
    d1: "d1 = (if \<not> eq_bool v False \<and> k \<in> set d then removeAll k d
               else if eq_bool v False then List.insert k d else d)"
    by (auto split: if_splits option.splits)
  have ih: "n \<in> set d' \<longleftrightarrow> (case map_of items n of None \<Rightarrow> n \<in> set d1 | Some w \<Rightarrow> w = PyBool False)"
    by (rule Cons.IH [OF step dist])
  show ?case
  proof (cases "n = k")
    case True
    have "k \<in> set d1 \<longleftrightarrow> v = PyBool False"
      unfolding d1 by (cases v) auto
    with True ih none it show ?thesis by simp
  next
    case False
    have "n \<in> set d1 \<longleftrightarrow> n \<in> set d"
      unfolding d1 using False by auto
    with False ih it show ?thesis by (simp split: option.splits)
  qed
qed

lemma apply_overrides_known:
  "apply_overrides s fs items d = Inr d' \<Longrightarrow> fst ` set items \<subseteq> fst ` set fs"
proof (induction items arbitrary: d)
  case Nil
  then show ?case by simp
next
  case (Cons it items)
  obtain k v where it: "it = (k, v)" by (cases it)
  from Cons.prems it have k: "k \<in> fst ` set fs"
    by (auto split: if_splits option.splits)
  from Cons.prems it k obtain d1 where "apply_overrides s fs items d1 = Inr d'"
    by (auto split: if_splits)
  from Cons.IH [OF this] k it show ?case by simp
qed

lemma pop_all_filter:
  "pop_all ns fs = Inr fs' \<Longrightarrow> fs' = filter (\<lambda>(k, f). k \<notin> set ns) fs"
proof (induction ns arbitrary: fs)
  case Nil
  then show ?case by simp
next
  case (Cons n ns)
  from Cons.prems have "pop_all ns (AList.delete n fs) = Inr fs'"
    by (simp split: if_splits)
  from Cons.IH [OF this] show ?case
    by (auto simp: AList.delete_eq case_prod_unfold intro!: filter_cong)
qed

lemma inject_all_names:
  "inject_all h s fs = Inr fs' \<Longrightarrow> map fst fs' = map fst fs"
  by (induction fs arbitrary: fs') (auto split: sum.splits)

lemma inject_all_member:
  "inject_all h s fs = Inr fs' \<Longrightarrow> (n, f') \<in> set fs' \<Longrightarrow>
   \<exists>f. (n, f) \<in> set fs \<and> inject_field h s n f = Inr f'"
proof (induction fs arbitrary: fs')
  case Nil
  then show ?case by simp
next
  case (Cons a fs)
  obtain k g where a: "a = (k, g)" by (cases a)
  from Cons.prems(1) a obtain g' rest' where
    g: "inject_field h s k g = Inr g'" and rest: "inject_all h s fs = Inr rest'" and
    fs': "fs' = (k, g') # rest'"
    by (auto split: sum.splits)
  from Cons.prems(2) fs' consider "n = k \<and> f' = g'" | "(n, f') \<in> set rest'" by auto
  then show ?case
  proof cases
    case 1
    with g a show ?thesis by auto
  next
    case 2
    from Cons.IH [OF rest 2] show ?thesis by auto
  qed
qed

lemma inject_all_map_of:
  "inject_all h s fs = Inr fs' \<Longrightarrow> map_of fs n = Some f \<Longrightarrow>
   \<exists>f'. map_of fs' n = Some f' \<and> inject_field h s n f = Inr f'"
  by (induction fs arbitrary: fs') (auto split: sum.splits if_splits)

lemma inject_field_injected:
  "inject_field h s n f = Inr f' \<Longrightarrow> injected f' = Some c' \<Longrightarrow>
   \<exists>c v. injected f = Some c \<and> get_default h (request_fields s) n (PyBool True) = Inr v \<and>
         c' = set_request_fields v c"
  by (cases "(h, s, n, f)" rule: inject_field.cases) (auto split: sum.splits)

lemma inject_field_target:
  "inject_field h s n f = Inr f' \<Longrightarrow> injected f = Some c \<Longrightarrow>
   \<exists>v. get_default h (request_fields s) n (PyBool True) = Inr v \<and>
       injected f' = Some (set_request_fields v c)"
  by (cases "(h, s, n, f)" rule: inject_field.cases) (auto split: sum.splits)

lemma request_overrides_member:
  assumes "request_overrides h s fs d = Inr d'" and "unique_keys h (request_fields s)"
  shows "n \<in> set d' \<longleftrightarrow> (case directive h s n of None \<Rightarrow> n \<in> set d | Some v \<Rightarrow> v = PyBool False)"
proof (cases "request_fields s")
  case PyNone
  with assms show ?thesis by (simp add: request_overrides_def directive_def)
next
  case (PyBool b)
  with assms show ?thesis by (cases b) (simp_all add: request_overrides_def directive_def)
next
  case (PyDict a)
  show ?thesis
  proof (cases "store h a = []")
    case True
    with PyDict assms show ?thesis by (simp add: request_overrides_def directive_def)
  next
    case False
    with PyDict assms have ao: "apply_overrides s fs (store h a) d = Inr d'"
      and dist: "distinct (map fst (store h a))"
      by (simp_all add: request_overrides_def unique_keys_def)
    from apply_overrides_member [OF ao dist] PyDict show ?thesis
      by (simp add: directive_def)
  qed
qed

lemma request_overrides_known:
  assumes "request_overrides h s fs d = Inr d'" and "directive h s n = Some v"
  shows "n \<in> fst ` set fs"
proof -
  from assms(2) obtain a where a: "request_fields s = PyDict a" and m: "map_of (store h a) n = Some v"
    by (auto simp: directive_def split: pyval.splits)
  from m have ne: "store h a \<noteq> []" by auto
  from m have "n \<in> fst ` set (store h a)" by (metis map_of_eq_None_iff option.distinct(1))
  moreover from assms(1) a ne have "apply_overrides s fs (store h a) d = Inr d'"
    by (simp add: request_overrides_def)
  ultimately show ?thesis using apply_overrides_known by blast
qed

lemma get_fields_steps:
  assumes "get_fields h s = Inr fs'" and "\<not> id_only s"
  shows "\<exists>d'. request_overrides h s (base_fields s) (default_deferred s (base_fields s)) = Inr d' \<and>
           inject_all h s (filter (\<lambda>(k, f). k \<notin> set d') (base_fields s)) = Inr fs'"
proof -
  from assms obtain d' remaining where
    ro: "request_overrides h s (base_fields s) (default_deferred s (base_fields s)) = Inr d'" and
    pa: "pop_all d' (base_fields s) = Inr remaining" and
    ia: "inject_all h s remaining = Inr fs'"
    by (auto simp: get_fields_def Let_def split: sum.splits)
  from pop_all_filter [OF pa] ro ia show ?thesis by auto
qed

lemma get_fields_names:
  assumes "get_fields h s = Inr fs'" and "\<not> id_only s" and "unique_keys h (request_fields s)"
  shows "map fst fs' =
           filter (\<lambda>k. case directive h s k of
                          None \<Rightarrow> k \<notin> set (default_deferred s (base_fields s))
                        | Some v \<Rightarrow> v \<noteq> PyBool False)
             (map fst (base_fields s))"
proof -
  from get_fields_steps [OF assms(1,2)] obtain d' where
    ro: "request_overrides h s (base_fields s) (default_deferred s (base_fields s)) = Inr d'" and
    ia: "inject_all h s (filter (\<lambda>(k, f). k \<notin> set d') (base_fields s)) = Inr fs'"
    by blast
  have mem: "\<And>k. k \<notin> set d' \<longleftrightarrow>
      (case directive h s k of None \<Rightarrow> k \<notin> set (default_deferred s (base_fields s))
       | Some v \<Rightarrow> v \<noteq> PyBool False)"
    using request_overrides_member [OF ro assms(3)] by (simp split: option.splits)
  have "map fst fs' = map fst (filter (\<lambda>(k, f). k \<notin> set d') (base_fields s))"
    by (rule inject_all_names [OF ia])
  also have "\<dots> = filter (\<lambda>k. k \<notin> set d') (map fst (base_fields s))"
    by (simp add: filter_map comp_def case_prod_unfold)
  finally show ?thesis by (simp add: mem)
qed

lemma default_deferred_declared:
  "n \<in> set (default_deferred s fs) \<Longrightarrow> n \<in> fst ` set fs"
  by (auto simp: default_deferred_def)

section \<open>What the constructor returns\<close>

lemma init_on_dict:
  assumes "request_or h rf (ctx_request_fields ctx) = (PyDict a, h1)"
  shows "init h i m fs ctx ia ea rf =
           Inr (Serializer i m fs (PyDict a)
                  (names_or ia (ctx_include_fields ctx)) (names_or ea (ctx_exclude_fields ctx)),
                h1\<lparr>store := (store h1)(a :=
                      fold (\<lambda>n. AList.update n (PyBool False)) (names_or ea (ctx_exclude_fields ctx))
                        (fold (\<lambda>n. AList.update n (PyBool True)) (names_or ia (ctx_include_fields ctx))
                           (store h1 a)))\<rparr>)"
  using assms by (simp add: init_def setitem_all_dict Let_def)

lemma init_not_dict:
  assumes "request_or h rf (ctx_request_fields ctx) = (r, h1)" and "\<And>a. r \<noteq> PyDict a"
    and "init h i m fs ctx ia ea rf = Inr (s, h')"
  shows "s = Serializer i m fs r [] [] \<and> h' = h1"
proof -
  let ?inc = "names_or ia (ctx_include_fields ctx)"
  let ?exc = "names_or ea (ctx_exclude_fields ctx)"
  have nd: "\<And>ns v hh. ns \<noteq> [] \<Longrightarrow> setitem_all hh r ns v = Inl TypeError"
    using assms(2) by (cases r; case_tac ns) auto
  have inc: "?inc = []"
  proof (rule ccontr)
    assume "?inc \<noteq> []"
    from nd [OF this] assms(1,3) show False by (simp add: init_def)
  qed
  have exc: "?exc = []"
  proof (rule ccontr)
    assume "?exc \<noteq> []"
    from nd [OF this] assms(1,3) inc show False by (simp add: init_def)
  qed
  from assms(1,3) inc exc show ?thesis by (simp add: init_def)
qed

lemma init_error:
  "init h i m fs ctx ia ea rf = Inl e \<Longrightarrow> e = TypeError"
  by (auto simp: init_def Let_def split: prod.splits sum.splits dest: setitem_all_error)

lemma init_merged_directive:
  assumes "init h i m fs ctx ia ea rf = Inr (s, h')"
    and "n \<in> set (include_fields s) \<or> n \<in> set (exclude_fields s)"
  shows "directive h' s n =
           Some (PyBool (n \<notin> set (exclude_fields s)))"
proof -
  obtain r h1 where ro: "request_or h rf (ctx_request_fields ctx) = (r, h1)"
    by (cases "request_or h rf (ctx_request_fields ctx)")
  show ?thesis
  proof (cases "\<exists>a. r = PyDict a")
    case True
    then obtain a where a: "r = PyDict a" by blast
    from init_on_dict [OF ro [unfolded a], of i m fs ia ea] assms show ?thesis
      by (auto simp: directive_def fold_update_map_of)
  next
    case False
    then have "\<And>a. r \<noteq> PyDict a" by blast
    from init_not_dict [OF ro this assms(1)] assms(2) show ?thesis by simp
  qed
qed

section \<open>Directives of a request\<close>

lemma directive_dict:
  "directive h s n = Some v \<Longrightarrow> \<exists>a. request_fields s = PyDict a \<and> map_of (store h a) n = Some v"
  by (auto simp: directive_def split: pyval.splits)

lemma directive_not_id_only:
  "directive h s n = Some v \<Longrightarrow> \<not> id_only s"
  by (auto simp: id_only_def dest: directive_dict)

section \<open>Requests propagated to related entities\<close>

lemma set_request_fields_sel [simp]:
  "request_fields (set_request_fields v c) = v"
  "include_fields (set_request_fields v c) = include_fields c"
  "exclude_fields (set_request_fields v c) = exclude_fields c"
  "Meta (set_request_fields v c) = Meta c"
  "base_fields (set_request_fields v c) = base_fields c"
  "ident (set_request_fields v c) = ident c"
  by (simp_all add: set_request_fields_def)

lemma get_default_directive:
  "get_default h (request_fields s) n d = Inr v \<Longrightarrow>
   v = (case directive h s n of None \<Rightarrow> d | Some w \<Rightarrow> w)"
  by (cases "request_fields s") (auto simp: directive_def)

text \<open>
  Claim C5. When the request of a serializer holds a nested request \<open>S\<close> for a relational
  field, field resolution keeps the field, and the serializer of the related entity is
  the one the field had with \<^verbatim>\<open>request_fields\<close> replaced by \<open>S\<close> itself: it receives
  exactly \<open>S\<close>, and nothing else of it changes, so neither the parent's other
  directives nor the parent's include and exclude names reach it.
\<close>

theorem nested_request_reparented:
  assumes "get_fields h s = Inr fs'"
    and "unique_keys h (request_fields s)"
    and "map_of (base_fields s) b = Some f"
    and "injected f = Some child"
    and "directive h s b = Some (PyDict c)"
  shows "\<exists>f' child'. map_of fs' b = Some f' \<and> injected f' = Some child' \<and>
           child' = set_request_fields (PyDict c) child \<and>
           request_fields child' = PyDict c \<and>
           include_fields child' = include_fields child \<and>
           exclude_fields child' = exclude_fields child"
proof -
  have nid: "\<not> id_only s" by (rule directive_not_id_only [OF assms(5)])
  from get_fields_steps [OF assms(1) nid] obtain d' where
    ro: "request_overrides h s (base_fields s) (default_deferred s (base_fields s)) = Inr d'" and
    ia: "inject_all h s (filter (\<lambda>(k, f). k \<notin> set d') (base_fields s)) = Inr fs'"
    by blast
  from request_overrides_member [OF ro assms(2), of b] assms(5) have "b \<notin> set d'" by simp
  with assms(3) have "map_of (filter (\<lambda>(k, f). k \<notin> set d') (base_fields s)) b = Some f"
    by (simp add: map_of_filter_in)
  from inject_all_map_of [OF ia this] obtain f' where
    f': "map_of fs' b = Some f'" and inj: "inject_field h s b f = Inr f'" by blast
  from inject_field_target [OF inj assms(4)] obtain v where
    gd: "get_default h (request_fields s) b (PyBool True) = Inr v" and
    t: "injected f' = Some (set_request_fields v child)" by blast
  from get_default_directive [OF gd] assms(5) have "v = PyDict c" by simp
  with f' t show ?thesis by simp
qed

text \<open>
  Claim C6. For a relational field of the resolved field set, the request propagated to
  the related entity's serializer is never \<^verbatim>\<open>False\<close>; when the parent's request does not
  name the field or names it with \<^verbatim>\<open>True\<close>, the propagated request is the boolean
  \<^verbatim>\<open>True\<close>, under which the related instance is represented by its bare primary key.
\<close>

theorem default_child_request:
  assumes "get_fields h s = Inr fs'"
    and "unique_keys h (request_fields s)"
    and "(b, f') \<in> set fs'"
    and "injected f' = Some child'"
  shows "request_fields child' \<noteq> PyBool False \<and>
         (directive h s b = None \<or> directive h s b = Some (PyBool True) \<longrightarrow>
            request_fields child' = PyBool True \<and>
            to_representation child' base inst = Inr (pk inst))"
proof -
  have nid: "\<not> id_only s"
  proof
    assume "id_only s"
    with assms(1) have "fs' = []" by (simp add: get_fields_def)
    with assms(3) show False by simp
  qed
  from get_fields_steps [OF assms(1) nid] obtain d' where
    ro: "request_overrides h s (base_fields s) (default_deferred s (base_fields s)) = Inr d'" and
    ia: "inject_all h s (filter (\<lambda>(k, f). k \<notin> set d') (base_fields s)) = Inr fs'"
    by blast
  from inject_all_member [OF ia assms(3)] obtain f where
    mem: "(b, f) \<in> set (filter (\<lambda>(k, f). k \<notin> set d') (base_fields s))" and
    inj: "inject_field h s b f = Inr f'" by blast
  from mem have nd: "b \<notin> set d'" by simp
  from inject_field_injected [OF inj assms(4)] obtain c v where
    gd: "get_default h (request_fields s) b (PyBool True) = Inr v" and
    c: "child' = set_request_fields v c" by blast
  have v: "v = (case directive h s b of None \<Rightarrow> PyBool True | Some w \<Rightarrow> w)"
    by (rule get_default_directive [OF gd])
  from request_overrides_member [OF ro assms(2), of b] nd
  have "case directive h s b of None \<Rightarrow> True | Some w \<Rightarrow> w \<noteq> PyBool False"
    by (simp split: option.splits)
  with v have nf: "v \<noteq> PyBool False" by (simp split: option.splits)
  have "directive h s b = None \<or> directive h s b = Some (PyBool True) \<Longrightarrow> v = PyBool True"
    using v by auto
  with nf c show ?thesis
    by (auto simp: to_representation_def id_only_def)
qed

lemma post_default_deferred:
  "default_deferred (Serializer 0 post_meta post_fields r [] []) post_fields = [''body'']"
  by (simp add: default_deferred_def meta_deferred_def post_meta_def post_fields_def)

theorem nested_request_reparented_witness:
  "get_fields nested_heap (Serializer 0 post_meta post_fields (PyDict 0) [] [])
     = Inr [(''author'', DynamicRelationField None (Some 0)
                (Serializer 1 person_meta person_fields (PyDict 1) [''name''] []))] \<and>
   unique_keys nested_heap (PyDict 0) \<and>
   map_of post_fields ''author'' = Some (DynamicRelationField None None author_serializer) \<and>
   injected (DynamicRelationField None None author_serializer) = Some author_serializer \<and>
   directive nested_heap (Serializer 0 post_meta post_fields (PyDict 0) [] []) ''author'' = Some (PyDict 1) \<and>
   set_request_fields (PyDict 1) author_serializer
     = Serializer 1 person_meta person_fields (PyDict 1) [''name''] []"
proof -
  let ?s = "Serializer 0 post_meta post_fields (PyDict 0) [] []"
  let ?f = "DynamicRelationField None None author_serializer"
  have sr: "set_request_fields (PyDict 1) author_serializer
     = Serializer 1 person_meta person_fields (PyDict 1) [''name''] []"
    by (simp add: set_request_fields_def author_serializer_def)
  have g: "get_fields nested_heap ?s
     = Inr [(''author'', DynamicRelationField None (Some 0)
                (Serializer 1 person_meta person_fields (PyDict 1) [''name''] []))]"
    by (simp add: get_fields_def id_only_def post_default_deferred request_overrides_def nested_heap_def)
       (simp add: post_fields_def AList.delete_eq set_request_fields_def author_serializer_def)
  have u: "unique_keys nested_heap (request_fields ?s)"
    by (simp add: unique_keys_def nested_heap_def)
  have m: "map_of (base_fields ?s) ''author'' = Some ?f" by (simp add: post_fields_def)
  have i: "injected ?f = Some author_serializer" by simp
  have d: "directive nested_heap ?s ''author'' = Some (PyDict 1)"
    by (simp add: directive_def nested_heap_def)
  from nested_request_reparented [OF g u m i d] g u m i d sr show ?thesis by simp
qed

theorem default_child_request_witness:
  "get_fields (heap_with [(''author'', PyBool True)]) (Serializer 0 post_meta post_fields (PyDict 0) [] [])
     = Inr [(''title'', Field None),
            (''author'', DynamicRelationField None (Some 0)
                (Serializer 1 person_meta person_fields (PyBool True) [''name''] []))] \<and>
   unique_keys (heap_with [(''author'', PyBool True)]) (PyDict 0) \<and>
   injected (DynamicRelationField None (Some 0)
                (Serializer 1 person_meta person_fields (PyBool True) [''name''] []))
     = Some (Serializer 1 person_meta person_fields (PyBool True) [''name''] []) \<and>
   directive (heap_with [(''author'', PyBool True)]) (Serializer 0 post_meta post_fields (PyDict 0) [] []) ''author''
     = Some (PyBool True) \<and>
   to_representation (Serializer 1 person_meta person_fields (PyBool True) [''name''] [])
      (\<lambda>i. Inr []) some_instance = Inr (RInt 42)"
proof -
  let ?s = "Serializer 0 post_meta post_fields (PyDict 0) [] []"
  let ?h = "heap_with [(''author'', PyBool True)]"
  let ?c = "Serializer 1 person_meta person_fields (PyBool True) [''name''] []"
  let ?f = "DynamicRelationField None (Some 0) ?c"
  have sr: "set_request_fields (PyBool True) author_serializer = ?c"
    by (simp add: set_request_fields_def author_serializer_def)
  have g: "get_fields ?h ?s = Inr [(''title'', Field None), (''author'', ?f)]"
    by (simp add: get_fields_def id_only_def post_default_deferred request_overrides_def heap_with_def)
       (simp add: post_fields_def AList.delete_eq set_request_fields_def author_serializer_def)
  have u: "unique_keys ?h (request_fields ?s)"
    by (simp add: unique_keys_def heap_with_def)
  have mem: "(''author'', ?f) \<in> set [(''title'', Field None), (''author'', ?f)]" by simp
  have i: "injected ?f = Some ?c" by simp
  have d: "directive ?h ?s ''author'' = Some (PyBool True)"
    by (simp add: directive_def heap_with_def)
  from default_child_request [OF g u mem i, of "\<lambda>i. Inr []" some_instance] d
  have "to_representation ?c (\<lambda>i. Inr []) some_instance = Inr (pk some_instance)" by simp
  with g u i d show ?thesis by (simp add: some_instance_def)
qed

section \<open>The include list and the request dictionary\<close>

lemma init_attributes:
  assumes "init h i m fs ctx ia ea rf = Inr (s, h')"
  shows "ident s = i \<and> Meta s = m \<and> base_fields s = fs"
  using assms
  by (auto simp: init_def Let_def split: prod.splits sum.splits)

text \<open>
  Claim C2, as the code has it. The constructor first assigns \<^verbatim>\<open>True\<close> in the request
  dictionary for every name of the include list, then \<^verbatim>\<open>False\<close> for every name of the
  exclude list; a non-empty list argument is the list used. For the serializer so built,
  resolving on the merged dictionary: a name of the include list that is not in the
  exclude list has the directive \<^verbatim>\<open>True\<close>, whatever directive (also an explicit
  \<^verbatim>\<open>False\<close>) the request held for it, and is in the resolved field set; a name of the
  exclude list, also one that the include list names too, has the directive \<^verbatim>\<open>False\<close>
  and is not in the resolved field set.
\<close>

theorem constructor_merge_precedence:
  assumes "init h i m fs ctx include_arg exclude_arg rf = Inr (s, h')"
    and "unique_keys h' (request_fields s)"
    and "get_fields h' s = Inr fs'"
  shows "(\<forall>x xs. include_arg = Some (x # xs) \<longrightarrow> include_fields s = x # xs) \<and>
         (\<forall>y ys. exclude_arg = Some (y # ys) \<longrightarrow> exclude_fields s = y # ys) \<and>
         (n \<in> set (include_fields s) \<and> n \<notin> set (exclude_fields s) \<longrightarrow>
            directive h' s n = Some (PyBool True) \<and> n \<in> fst ` set fs') \<and>
         (n \<in> set (exclude_fields s) \<longrightarrow>
            directive h' s n = Some (PyBool False) \<and> n \<notin> fst ` set fs')"
proof -
  have lists: "include_fields s = names_or include_arg (ctx_include_fields ctx) \<and>
               exclude_fields s = names_or exclude_arg (ctx_exclude_fields ctx)"
    using assms(1) by (auto simp: init_def Let_def split: prod.splits sum.splits)
  have a: "\<forall>x xs. include_arg = Some (x # xs) \<longrightarrow> include_fields s = x # xs"
    using lists by (simp add: names_or_def)
  have b: "\<forall>y ys. exclude_arg = Some (y # ys) \<longrightarrow> exclude_fields s = y # ys"
    using lists by (simp add: names_or_def)
  have names: "fst ` set fs' = set (map fst fs')" by simp
  have c: "directive h' s n = Some (PyBool True) \<and> n \<in> fst ` set fs'"
    if inc: "n \<in> set (include_fields s)" and exc: "n \<notin> set (exclude_fields s)"
  proof -
    from init_merged_directive [OF assms(1), of n] inc exc
    have d: "directive h' s n = Some (PyBool True)" by simp
    have nid: "\<not> id_only s" by (rule directive_not_id_only [OF d])
    from get_fields_steps [OF assms(3) nid] obtain d' where
      ro: "request_overrides h' s (base_fields s) (default_deferred s (base_fields s)) = Inr d'"
      by blast
    have decl: "n \<in> set (map fst (base_fields s))"
      using request_overrides_known [OF ro d] by simp
    note names
    also note get_fields_names [OF assms(3) nid assms(2)]
    finally have "n \<in> fst ` set fs'" using d decl by simp
    with d show ?thesis by simp
  qed
  have e: "directive h' s n = Some (PyBool False) \<and> n \<notin> fst ` set fs'"
    if exc: "n \<in> set (exclude_fields s)"
  proof -
    from init_merged_directive [OF assms(1), of n] exc
    have d: "directive h' s n = Some (PyBool False)" by simp
    have nid: "\<not> id_only s" by (rule directive_not_id_only [OF d])
    note names
    also note get_fields_names [OF assms(3) nid assms(2)]
    finally have "n \<notin> fst ` set fs'" using d by simp
    with d show ?thesis by simp
  qed
  from a b c e show ?thesis by blast
qed

theorem constructor_merge_precedence_witness:
  "init (heap_with [(''age'', PyBool False)]) 0 person_meta person_fields no_context
      (Some [''age'', ''name'']) (Some [''name'']) (PyDict 0)
     = Inr (Serializer 0 person_meta person_fields (PyDict 0) [''age'', ''name''] [''name''],
            heap_with [(''age'', PyBool True), (''name'', PyBool False)]) \<and>
   unique_keys (heap_with [(''age'', PyBool True), (''name'', PyBool False)]) (PyDict 0) \<and>
   get_fields (heap_with [(''age'', PyBool True), (''name'', PyBool False)])
      (Serializer 0 person_meta person_fields (PyDict 0) [''age'', ''name''] [''name''])
     = Inr [(''age'', Field None)] \<and>
   directive (heap_with [(''age'', PyBool True), (''name'', PyBool False)])
      (Serializer 0 person_meta person_fields (PyDict 0) [''age'', ''name''] [''name'']) ''age''
     = Some (PyBool True) \<and>
   ''age'' \<in> fst ` set [(''age'', Field None)] \<and>
   directive (heap_with [(''age'', PyBool True), (''name'', PyBool False)])
      (Serializer 0 person_meta person_fields (PyDict 0) [''age'', ''name''] [''name'']) ''name''
     = Some (PyBool False) \<and>
   ''name'' \<notin> fst ` set [(''age'', Field None)]"
proof -
  let ?s = "Serializer 0 person_meta person_fields (PyDict 0) [''age'', ''name''] [''name'']"
  let ?h' = "heap_with [(''age'', PyBool True), (''name'', PyBool False)]"
  have i: "init (heap_with [(''age'', PyBool False)]) 0 person_meta person_fields no_context
      (Some [''age'', ''name'']) (Some [''name'']) (PyDict 0) = Inr (?s, ?h')"
    by (simp add: init_def request_or_def no_context_def heap_with_def names_or_def Let_def)
  have u: "unique_keys ?h' (request_fields ?s)" by (simp add: unique_keys_def heap_with_def)
  have dd: "default_deferred ?s person_fields = [''email'']"
    by (simp add: default_deferred_def meta_deferred_def person_meta_def person_fields_def)
  have g: "get_fields ?h' ?s = Inr [(''age'', Field None)]"
    by (simp add: get_fields_def id_only_def dd request_overrides_def heap_with_def)
       (simp add: person_fields_def AList.delete_eq)
  from constructor_merge_precedence [OF i u g, of "''age''"]
  have r1: "directive ?h' ?s ''age'' = Some (PyBool True) \<and> ''age'' \<in> fst ` set [(''age'', Field None)]"
    by simp
  from constructor_merge_precedence [OF i u g, of "''name''"]
  have r2: "directive ?h' ?s ''name'' = Some (PyBool False) \<and> ''name'' \<notin> fst ` set [(''age'', Field None)]"
    by simp
  from i u g r1 r2 show ?thesis by simp
qed

text \<open>
  The claim as stated fails: the request \<^verbatim>\<open>{age: False}\<close> with the include list
  \<^verbatim>\<open>[age]\<close> on a person resolves to the fields \<open>name\<close> and \<open>age\<close>.
\<close>

theorem explicit_false_counterexample:
  "directive (heap_with [(''age'', PyBool False)])
      (Serializer 0 person_meta person_fields (PyDict 0) [] []) ''age'' = Some (PyBool False) \<and>
   init (heap_with [(''age'', PyBool False)]) 0 person_meta person_fields no_context
      (Some [''age'']) None (PyDict 0)
     = Inr (Serializer 0 person_meta person_fields (PyDict 0) [''age''] [],
            heap_with [(''age'', PyBool True)]) \<and>
   get_fields (heap_with [(''age'', PyBool True)])
      (Serializer 0 person_meta person_fields (PyDict 0) [''age''] [])
     = Inr [(''name'', Field None), (''age'', Field None)]"
proof -
  let ?s = "Serializer 0 person_meta person_fields (PyDict 0) [''age''] []"
  have dd: "default_deferred ?s person_fields = [''email'']"
    by (simp add: default_deferred_def meta_deferred_def person_meta_def person_fields_def)
  have "get_fields (heap_with [(''age'', PyBool True)]) ?s
          = Inr [(''name'', Field None), (''age'', Field None)]"
    by (simp add: get_fields_def id_only_def dd request_overrides_def heap_with_def)
       (simp add: person_fields_def AList.delete_eq)
  moreover have "init (heap_with [(''age'', PyBool False)]) 0 person_meta person_fields no_context
      (Some [''age'']) None (PyDict 0) = Inr (?s, heap_with [(''age'', PyBool True)])"
    by (simp add: init_def request_or_def no_context_def heap_with_def names_or_def)
  moreover have "directive (heap_with [(''age'', PyBool False)])
      (Serializer 0 person_meta person_fields (PyDict 0) [] []) ''age'' = Some (PyBool False)"
    by (simp add: directive_def heap_with_def)
  ultimately show ?thesis by simp
qed

section \<open>The constructor and the caller's dictionary\<close>

text \<open>
  Claim C3, as the code has it. The constructor makes no copy. When it is given a request
  dictionary, the caller's non-empty one or else the one inherited through the context,
  the serializer's \<^verbatim>\<open>request_fields\<close> is that same dictionary object, and the merge
  loops write into it in place: afterwards it holds \<^verbatim>\<open>False\<close> for every excluded name,
  \<^verbatim>\<open>True\<close> for every other included name and its former directive for every other
  name. No other dictionary of the store is changed.
\<close>

theorem init_merges_in_place:
  assumes "init h i m fs ctx include_arg exclude_arg rf = Inr (s, h')"
    and "(truthy h rf \<and> rf = PyDict a) \<or>
         (\<not> truthy h rf \<and> ctx_request_fields ctx = Some (PyDict a))"
  shows "request_fields s = PyDict a \<and>
         (\<forall>n. map_of (store h' a) n =
                (if n \<in> set (exclude_fields s) then Some (PyBool False)
                 else if n \<in> set (include_fields s) then Some (PyBool True)
                 else map_of (store h a) n)) \<and>
         (\<forall>b. b \<noteq> a \<longrightarrow> store h' b = store h b)"
proof -
  from assms(2) have ro: "request_or h rf (ctx_request_fields ctx) = (PyDict a, h)"
    by (auto simp: request_or_def)
  from init_on_dict [OF ro, of i m fs include_arg exclude_arg] assms(1)
  show ?thesis by (auto simp: fold_update_map_of)
qed

theorem init_merges_in_place_witness:
  "init (heap_with [(''name'', PyBool True)]) 0 person_meta person_fields no_context
      (Some [''age'']) (Some [''email'']) (PyDict 0)
     = Inr (Serializer 0 person_meta person_fields (PyDict 0) [''age''] [''email''],
            heap_with [(''name'', PyBool True), (''age'', PyBool True), (''email'', PyBool False)]) \<and>
   truthy (heap_with [(''name'', PyBool True)]) (PyDict 0) \<and>
   map_of (store (heap_with [(''name'', PyBool True), (''age'', PyBool True), (''email'', PyBool False)]) 0) ''email''
     = Some (PyBool False) \<and>
   store (heap_with [(''name'', PyBool True), (''age'', PyBool True), (''email'', PyBool False)]) 1
     = store (heap_with [(''name'', PyBool True)]) 1"
proof -
  let ?h = "heap_with [(''name'', PyBool True)]"
  let ?h' = "heap_with [(''name'', PyBool True), (''age'', PyBool True), (''email'', PyBool False)]"
  let ?s = "Serializer 0 person_meta person_fields (PyDict 0) [''age''] [''email'']"
  have i: "init ?h 0 person_meta person_fields no_context (Some [''age'']) (Some [''email'']) (PyDict 0)
             = Inr (?s, ?h')"
    by (simp add: init_def request_or_def no_context_def heap_with_def names_or_def)
  have t: "truthy ?h (PyDict 0)" by (simp add: heap_with_def)
  then have g: "(truthy ?h (PyDict 0) \<and> PyDict 0 = PyDict 0) \<or>
         (\<not> truthy ?h (PyDict 0) \<and> ctx_request_fields no_context = Some (PyDict 0))" by simp
  from init_merges_in_place [OF i g] have
    "map_of (store ?h' 0) ''email'' = Some (PyBool False)" and "store ?h' 1 = store ?h 1"
    by simp_all
  with i t show ?thesis by simp
qed

text \<open>
  The claim as stated fails: after the constructor has run with an include and an
  exclude list, the caller's dictionary at address 0 holds two more items; the same
  happens to a dictionary inherited through the context.
\<close>

theorem defensive_copy_counterexample:
  "init (heap_with [(''name'', PyBool True)]) 0 person_meta person_fields no_context
      (Some [''age'']) (Some [''email'']) (PyDict 0)
     = Inr (Serializer 0 person_meta person_fields (PyDict 0) [''age''] [''email''],
            heap_with [(''name'', PyBool True), (''age'', PyBool True), (''email'', PyBool False)]) \<and>
   init (heap_with [(''name'', PyBool True)]) 0 person_meta person_fields
      \<lparr>ctx_request_fields = Some (PyDict 0), ctx_include_fields = None, ctx_exclude_fields = None\<rparr>
      (Some [''age'']) None PyNone
     = Inr (Serializer 0 person_meta person_fields (PyDict 0) [''age''] [],
            heap_with [(''name'', PyBool True), (''age'', PyBool True)]) \<and>
   store (heap_with [(''name'', PyBool True), (''age'', PyBool True), (''email'', PyBool False)]) 0
     \<noteq> store (heap_with [(''name'', PyBool True)]) 0 \<and>
   store (heap_with [(''name'', PyBool True), (''age'', PyBool True)]) 0
     \<noteq> store (heap_with [(''name'', PyBool True)]) 0"
  by (simp add: init_def request_or_def no_context_def heap_with_def names_or_def)

section \<open>A serializer class without a name\<close>

lemma apply_overrides_nameless:
  assumes "name (Meta s) = None" and "\<not> fst ` set items \<subseteq> fst ` set fs"
  shows "apply_overrides s fs items d = Inl AttributeError"
  using assms(2)
proof (induction items arbitrary: d)
  case Nil
  then show ?case by simp
next
  case (Cons it items)
  obtain k v where it: "it = (k, v)" by (cases it)
  show ?case
  proof (cases "k \<in> fst ` set fs")
    case True
    with Cons.prems it have "\<not> fst ` set items \<subseteq> fst ` set fs" by auto
    from Cons.IH [OF this] True it show ?thesis by simp
  next
    case False
    with it assms(1) show ?thesis by simp
  qed
qed

text \<open>
  Claim C10, as the code has it. Nothing checks \<^verbatim>\<open>Meta.name\<close> before a request is served:
  the constructor builds a serializer for a \<^verbatim>\<open>Meta\<close> without a name. The missing name
  shows per request, as an \<^verbatim>\<open>AttributeError\<close>: when an instance is represented outside
  identifier-only mode (also when \<^verbatim>\<open>plural_name\<close> is declared), and when field resolution
  meets an unknown requested name and builds its message. In identifier-only mode the
  representation is still the primary key.
\<close>

theorem missing_name_surfaces_per_request:
  assumes "name m = None"
    and "init h i m fs ctx include_arg exclude_arg rf = Inr (s, h')"
  shows "Meta s = m \<and>
         (id_only s \<longrightarrow> to_representation s base inst = Inr (pk inst)) \<and>
         (\<not> id_only s \<and> base inst = Inr rep \<longrightarrow> to_representation s base inst = Inl AttributeError) \<and>
         (directive h' s n \<noteq> None \<and> n \<notin> fst ` set fs \<longrightarrow> get_fields h' s = Inl AttributeError)"
proof -
  from init_attributes [OF assms(2)] have at: "Meta s = m" "base_fields s = fs" by simp_all
  have a: "id_only s \<Longrightarrow> to_representation s base inst = Inr (pk inst)"
    by (simp add: to_representation_def)
  have b: "\<not> id_only s \<Longrightarrow> base inst = Inr rep \<Longrightarrow> to_representation s base inst = Inl AttributeError"
    using at assms(1) by (simp add: to_representation_def get_plural_name_def get_name_def)
  have c: "get_fields h' s = Inl AttributeError"
    if d: "directive h' s n \<noteq> None" and u: "n \<notin> fst ` set fs"
  proof -
    from d obtain v where "directive h' s n = Some v" by blast
    from directive_dict [OF this] obtain a where
      rq: "request_fields s = PyDict a" and mp: "map_of (store h' a) n = Some v" by blast
    from mp have ne: "store h' a \<noteq> []" by auto
    from mp have "n \<in> fst ` set (store h' a)" by (metis map_of_eq_None_iff option.distinct(1))
    with u at have "\<not> fst ` set (store h' a) \<subseteq> fst ` set (base_fields s)" by blast
    from apply_overrides_nameless [OF _ this, where d = "default_deferred s (base_fields s)"] at assms(1)
    have "apply_overrides s (base_fields s) (store h' a) (default_deferred s (base_fields s))
            = Inl AttributeError" by simp
    with rq ne show ?thesis
      by (simp add: get_fields_def id_only_def request_overrides_def)
  qed
  from at a b c show ?thesis by blast
qed

theorem missing_name_surfaces_per_request_witness:
  "name nameless_meta = None \<and>
   init empty_heap 0 nameless_meta person_fields no_context None None PyNone
     = Inr (Serializer 0 nameless_meta person_fields (PyDict 0) [] [], heap_with []) \<and>
   \<not> id_only (Serializer 0 nameless_meta person_fields (PyDict 0) [] []) \<and>
   to_representation (Serializer 0 nameless_meta person_fields (PyDict 0) [] [])
      (\<lambda>i. Inr [(''name'', RStr ''Ada'')]) some_instance = Inl AttributeError"
proof -
  let ?s = "Serializer 0 nameless_meta person_fields (PyDict 0) [] []"
  have n: "name nameless_meta = None" by (simp add: nameless_meta_def)
  have i: "init empty_heap 0 nameless_meta person_fields no_context None None PyNone
             = Inr (?s, heap_with [])"
    by (simp add: init_def request_or_def no_context_def new_dict_def empty_heap_def heap_with_def
          names_or_def)
  have nid: "\<not> id_only ?s" by (simp add: id_only_def)
  from missing_name_surfaces_per_request [OF n i, of "\<lambda>i. Inr [(''name'', RStr ''Ada'')]" some_instance
      "[(''name'', RStr ''Ada'')]"] nid
  have "to_representation ?s (\<lambda>i. Inr [(''name'', RStr ''Ada'')]) some_instance = Inl AttributeError"
    by simp
  with n i nid show ?thesis by simp
qed

text \<open>
  The claim as stated fails: for a \<^verbatim>\<open>Meta\<close> without a name the constructor and field
  resolution succeed, the representation of an instance raises \<^verbatim>\<open>AttributeError\<close>, and
  the identifier-only representation succeeds.
\<close>

theorem missing_name_counterexample:
  "init empty_heap 0 nameless_meta person_fields no_context None None PyNone
     = Inr (Serializer 0 nameless_meta person_fields (PyDict 0) [] [], heap_with []) \<and>
   get_fields (heap_with []) (Serializer 0 nameless_meta person_fields (PyDict 0) [] [])
     = Inr [(''name'', Field None), (''age'', Field None)] \<and>
   to_representation (Serializer 0 nameless_meta person_fields (PyDict 0) [] [])
      (\<lambda>i. Inr [(''name'', RStr ''Ada'')]) some_instance = Inl AttributeError \<and>
   to_representation (Serializer 0 nameless_meta person_fields (PyBool True) [] [])
      (\<lambda>i. Inr [(''name'', RStr ''Ada'')]) some_instance = Inr (RInt 42)"
proof -
  let ?s = "Serializer 0 nameless_meta person_fields (PyDict 0) [] []"
  have dd: "default_deferred ?s person_fields = [''email'']"
    by (simp add: default_deferred_def meta_deferred_def nameless_meta_def person_fields_def)
  have "get_fields (heap_with []) ?s = Inr [(''name'', Field None), (''age'', Field None)]"
    by (simp add: get_fields_def id_only_def dd request_overrides_def heap_with_def)
       (simp add: person_fields_def AList.delete_eq)
  moreover have "init empty_heap 0 nameless_meta person_fields no_context None None PyNone
             = Inr (?s, heap_with [])"
    by (simp add: init_def request_or_def no_context_def new_dict_def empty_heap_def heap_with_def
          names_or_def)
  moreover have "to_representation ?s (\<lambda>i. Inr [(''name'', RStr ''Ada'')]) some_instance
          = Inl AttributeError"
    by (simp add: to_representation_def id_only_def get_plural_name_def get_name_def nameless_meta_def)
  moreover have "to_representation (Serializer 0 nameless_meta person_fields (PyBool True) [] [])
      (\<lambda>i. Inr [(''name'', RStr ''Ada'')]) some_instance = Inr (RInt 42)"
    by (simp add: to_representation_def id_only_def some_instance_def)
  ultimately show ?thesis by simp
qed

section \<open>Deferred fields\<close>

lemma default_deferred_iff:
  "n \<in> set (default_deferred s fs) \<longleftrightarrow>
     (\<exists>f. (n, f) \<in> set fs \<and>
        (getattr_deferred f = PyBool True \<or> (\<exists>l. deferred_fields (Meta s) = Some l \<and> n \<in> set l)))"
proof -
  have e: "\<And>f. eq_bool (getattr_deferred f) True \<longleftrightarrow> getattr_deferred f = PyBool True"
    by (case_tac "getattr_deferred f") auto
  have m: "n \<in> set (meta_deferred s) \<longleftrightarrow> (\<exists>l. deferred_fields (Meta s) = Some l \<and> n \<in> set l)"
    by (cases "deferred_fields (Meta s)") (simp_all add: meta_deferred_def)
  show ?thesis
    unfolding default_deferred_def by (force simp: e m)
qed

lemma get_fields_declared:
  assumes "get_fields h s = Inr fs'"
  shows "fst ` set fs' \<subseteq> fst ` set (base_fields s)"
proof (cases "id_only s")
  case True
  with assms show ?thesis by (simp add: get_fields_def)
next
  case False
  from get_fields_steps [OF assms False] obtain d' where
    ia: "inject_all h s (filter (\<lambda>(k, f). k \<notin> set d') (base_fields s)) = Inr fs'" by blast
  have "fst ` set fs' = set (map fst fs')" by simp
  also have "\<dots> = set (map fst (filter (\<lambda>(k, f). k \<notin> set d') (base_fields s)))"
    by (simp only: inject_all_names [OF ia])
  finally show ?thesis by auto
qed

text \<open>
  Claim C1. Let a field be deferred by its declaration: the serializer has a field of
  that name whose \<^verbatim>\<open>deferred\<close> attribute is \<^verbatim>\<open>True\<close>, or \<^verbatim>\<open>Meta.deferred_fields\<close> lists
  the name. When field resolution returns a field set and the request does not name the
  field, the field is absent from the set; when the request names it with \<^verbatim>\<open>True\<close> or
  with a nested request, it is in the set.
\<close>

theorem declared_deferral:
  assumes "get_fields h s = Inr fs'"
    and "(\<exists>f. (n, f) \<in> set (base_fields s) \<and> getattr_deferred f = PyBool True) \<or>
         (\<exists>l. deferred_fields (Meta s) = Some l \<and> n \<in> set l)"
    and "unique_keys h (request_fields s)"
  shows "(directive h s n = None \<longrightarrow> n \<notin> fst ` set fs') \<and>
         (directive h s n = Some (PyBool True) \<or> (\<exists>a. directive h s n = Some (PyDict a))
            \<longrightarrow> n \<in> fst ` set fs')"
proof (cases "n \<in> fst ` set (base_fields s)")
  case False
  have a: "n \<notin> fst ` set fs'" using get_fields_declared [OF assms(1)] False by blast
  have b: "directive h s n = None"
  proof (rule ccontr)
    assume "directive h s n \<noteq> None"
    then obtain v where d: "directive h s n = Some v" by blast
    have nid: "\<not> id_only s" by (rule directive_not_id_only [OF d])
    from get_fields_steps [OF assms(1) nid] obtain d' where
      "request_overrides h s (base_fields s) (default_deferred s (base_fields s)) = Inr d'" by blast
    from request_overrides_known [OF this d] False show False by simp
  qed
  from a b show ?thesis by simp
next
  case True
  with assms(2) have dd: "n \<in> set (default_deferred s (base_fields s))"
    unfolding default_deferred_iff by force
  show ?thesis
  proof (cases "id_only s")
    case True
    then have "request_fields s = PyBool True"
      unfolding id_only_def by (cases "request_fields s") auto
    with True assms(1) show ?thesis by (simp add: get_fields_def directive_def)
  next
    case False
    have decl: "n \<in> set (map fst (base_fields s))"
      using default_deferred_declared [OF dd] by simp
    have "fst ` set fs' = set (map fst fs')" by simp
    also note get_fields_names [OF assms(1) False assms(3)]
    finally show ?thesis using dd decl by auto
  qed
qed

theorem declared_deferral_witness:
  "get_fields (heap_with [(''email'', PyBool True)]) (Serializer 0 person_meta person_fields (PyDict 0) [] [])
     = Inr person_fields \<and>
   get_fields (heap_with []) (Serializer 0 person_meta person_fields (PyDict 0) [] [])
     = Inr [(''name'', Field None), (''age'', Field None)] \<and>
   (''email'', Field (Some (PyBool True))) \<in> set person_fields \<and>
   getattr_deferred (Field (Some (PyBool True))) = PyBool True \<and>
   ''email'' \<in> fst ` set person_fields \<and>
   ''email'' \<notin> fst ` set [(''name'', Field None), (''age'', Field None)] \<and>
   deferred_fields post_meta = Some [''body''] \<and>
   get_fields (heap_with []) (Serializer 0 post_meta post_fields (PyDict 0) [] [])
     = Inr [(''title'', Field None),
            (''author'', DynamicRelationField None (Some 0)
                (Serializer 1 person_meta person_fields (PyBool True) [''name''] []))] \<and>
   ''body'' \<notin> fst ` set [(''title'', Field None),
            (''author'', DynamicRelationField None (Some 0)
                (Serializer 1 person_meta person_fields (PyBool True) [''name''] []))] \<and>
   get_fields (heap_with [(''body'', PyBool True)]) (Serializer 0 post_meta post_fields (PyDict 0) [] [])
     = Inr [(''title'', Field None), (''body'', Field None),
            (''author'', DynamicRelationField None (Some 0)
                (Serializer 1 person_meta person_fields (PyBool True) [''name''] []))] \<and>
   ''body'' \<in> fst ` set [(''title'', Field None), (''body'', Field None),
            (''author'', DynamicRelationField None (Some 0)
                (Serializer 1 person_meta person_fields (PyBool True) [''name''] []))]"
proof -
  let ?s = "Serializer 0 person_meta person_fields (PyDict 0) [] []"
  let ?p = "Serializer 0 post_meta post_fields (PyDict 0) [] []"
  let ?a = "(''author'', DynamicRelationField None (Some 0)
                (Serializer 1 person_meta person_fields (PyBool True) [''name''] []))"
  let ?h1 = "heap_with [(''email'', PyBool True)]"
  let ?h2 = "heap_with [(''body'', PyBool True)]"
  have dd: "default_deferred ?s person_fields = [''email'']"
    by (simp add: default_deferred_def meta_deferred_def person_meta_def person_fields_def)
  have g1: "get_fields ?h1 ?s = Inr person_fields"
    by (simp add: get_fields_def id_only_def dd request_overrides_def heap_with_def)
       (simp add: person_fields_def)
  have g2: "get_fields (heap_with []) ?s = Inr [(''name'', Field None), (''age'', Field None)]"
    by (simp add: get_fields_def id_only_def dd request_overrides_def heap_with_def)
       (simp add: person_fields_def AList.delete_eq)
  have g3: "get_fields (heap_with []) ?p = Inr [(''title'', Field None), ?a]"
    by (simp add: get_fields_def id_only_def post_default_deferred request_overrides_def heap_with_def)
       (simp add: post_fields_def AList.delete_eq set_request_fields_def author_serializer_def)
  have g4: "get_fields ?h2 ?p = Inr [(''title'', Field None), (''body'', Field None), ?a]"
    by (simp add: get_fields_def id_only_def post_default_deferred request_overrides_def heap_with_def)
       (simp add: post_fields_def AList.delete_eq set_request_fields_def author_serializer_def)
  have m: "(''email'', Field (Some (PyBool True))) \<in> set person_fields"
    by (simp add: person_fields_def)
  have f: "getattr_deferred (Field (Some (PyBool True))) = PyBool True" by simp
  from m f have flag: "(\<exists>f. (''email'', f) \<in> set (base_fields ?s) \<and> getattr_deferred f = PyBool True) \<or>
         (\<exists>l. deferred_fields (Meta ?s) = Some l \<and> ''email'' \<in> set l)"
    by auto
  have l: "deferred_fields post_meta = Some [''body'']" by (simp add: post_meta_def)
  then have lst: "(\<exists>f. (''body'', f) \<in> set (base_fields ?p) \<and> getattr_deferred f = PyBool True) \<or>
         (\<exists>l. deferred_fields (Meta ?p) = Some l \<and> ''body'' \<in> set l)"
    by simp
  have u1: "unique_keys ?h1 (request_fields ?s)" by (simp add: unique_keys_def heap_with_def)
  have u0: "unique_keys (heap_with []) (request_fields ?s)" by (simp add: unique_keys_def heap_with_def)
  have u0p: "unique_keys (heap_with []) (request_fields ?p)" by (simp add: unique_keys_def heap_with_def)
  have u2: "unique_keys ?h2 (request_fields ?p)" by (simp add: unique_keys_def heap_with_def)
  have d1: "directive ?h1 ?s ''email'' = Some (PyBool True)" by (simp add: directive_def heap_with_def)
  have d2: "directive (heap_with []) ?s ''email'' = None" by (simp add: directive_def heap_with_def)
  have d3: "directive (heap_with []) ?p ''body'' = None" by (simp add: directive_def heap_with_def)
  have d4: "directive ?h2 ?p ''body'' = Some (PyBool True)" by (simp add: directive_def heap_with_def)
  from declared_deferral [OF g1 flag u1] d1 have r1: "''email'' \<in> fst ` set person_fields" by simp
  from declared_deferral [OF g2 flag u0] d2
  have r2: "''email'' \<notin> fst ` set [(''name'', Field None), (''age'', Field None)]" by blast
  from declared_deferral [OF g3 lst u0p] d3
  have r3: "''body'' \<notin> fst ` set [(''title'', Field None), ?a]" by blast
  from declared_deferral [OF g4 lst u2] d4
  have r4: "''body'' \<in> fst ` set [(''title'', Field None), (''body'', Field None), ?a]" by blast
  from g1 g2 g3 g4 m f l r1 r2 r3 r4 show ?thesis by blast
qed

section \<open>Unknown field names\<close>

lemma apply_overrides_first_unknown:
  "find (\<lambda>k. k \<notin> fst ` set fs) (map fst items) = Some n \<Longrightarrow>
   apply_overrides s fs items d =
     (case name (Meta s) of
        None \<Rightarrow> Inl AttributeError
      | Some entity \<Rightarrow> Inl (ParseError (invalid_field_message n entity)))"
proof (induction items arbitrary: d)
  case Nil
  then show ?case by simp
next
  case (Cons it items)
  obtain k v where it: "it = (k, v)" by (cases it)
  show ?case
  proof (cases "k \<in> fst ` set fs")
    case True
    with Cons.prems it have "find (\<lambda>k. k \<notin> fst ` set fs) (map fst items) = Some n" by simp
    from Cons.IH [OF this] True it show ?thesis by simp
  next
    case False
    with Cons.prems it have "n = k" by simp
    with False it show ?thesis by (simp split: option.splits)
  qed
qed

text \<open>
  Claim C7, as the code has it. Let the request of a serializer name a field that the
  serializer does not have, in the request dictionary or, after the constructor has
  merged them, through the include or exclude list. Then field resolution itself fails,
  at the first such name that the iteration over the dictionary meets; that is the named
  field when the dictionary has no other unknown name. When \<^verbatim>\<open>Meta.name\<close> is declared
  the exception is the \<^verbatim>\<open>ParseError\<close> (the specification's \<open>UnknownFieldError\<close>) whose
  message is that name in quotes, the words \<open>is not a valid field name for\<close>, and the
  entity's name in quotes; when it is not declared, building the message raises
  \<^verbatim>\<open>AttributeError\<close>.
\<close>

theorem unknown_field_rejected:
  assumes "n \<notin> fst ` set (base_fields s)"
    and "directive h s n \<noteq> None \<or>
         (\<exists>h0 ctx include_arg exclude_arg request_arg.
            init h0 (ident s) (Meta s) (base_fields s) ctx include_arg exclude_arg request_arg = Inr (s, h) \<and>
            (n \<in> set (include_fields s) \<or> n \<in> set (exclude_fields s)))"
  shows "\<exists>a n'. request_fields s = PyDict a \<and>
           find (\<lambda>k. k \<notin> fst ` set (base_fields s)) (map fst (store h a)) = Some n' \<and>
           get_fields h s =
             (case name (Meta s) of
                None \<Rightarrow> Inl AttributeError
              | Some entity \<Rightarrow>
                  Inl (ParseError ([CHR 0x27] @ n' @ [CHR 0x27] @ '' is not a valid field name for '' @
                                   [CHR 0x27] @ entity @ [CHR 0x27]))) \<and>
           ((\<forall>k. k \<in> fst ` set (store h a) \<and> k \<notin> fst ` set (base_fields s) \<longrightarrow> k = n) \<longrightarrow> n' = n)"
proof -
  from assms(2) have "directive h s n \<noteq> None"
    by (auto dest: init_merged_directive)
  then obtain v where "directive h s n = Some v" by blast
  from directive_dict [OF this] obtain a where
    a: "request_fields s = PyDict a" and m: "map_of (store h a) n = Some v" by blast
  from m have ne: "store h a \<noteq> []" by auto
  from m have mem: "n \<in> set (map fst (store h a))"
    by (metis map_of_eq_None_iff option.distinct(1) set_map)
  let ?P = "\<lambda>k. k \<notin> fst ` set (base_fields s)"
  from mem assms(1) have "find ?P (map fst (store h a)) \<noteq> None"
    by (auto simp: find_None_iff)
  then obtain n' where f: "find ?P (map fst (store h a)) = Some n'" by blast
  then have n': "n' \<in> fst ` set (store h a)" "n' \<notin> fst ` set (base_fields s)"
    by (auto simp: find_Some_iff)
  from apply_overrides_first_unknown [OF f, of s "default_deferred s (base_fields s)"] a ne
  have "get_fields h s =
          (case name (Meta s) of None \<Rightarrow> Inl AttributeError
           | Some entity \<Rightarrow> Inl (ParseError (invalid_field_message n' entity)))"
    by (simp add: get_fields_def id_only_def request_overrides_def split: option.splits)
  then have "get_fields h s =
             (case name (Meta s) of
                None \<Rightarrow> Inl AttributeError
              | Some entity \<Rightarrow>
                  Inl (ParseError ([CHR 0x27] @ n' @ [CHR 0x27] @ '' is not a valid field name for '' @
                                   [CHR 0x27] @ entity @ [CHR 0x27])))"
    by (simp add: invalid_field_message_def split: option.splits)
  with a f n' show ?thesis by blast
qed

theorem unknown_field_rejected_witness:
  "''nickname'' \<notin> fst ` set person_fields \<and>
   init empty_heap 0 person_meta person_fields no_context (Some [''nickname'']) None PyNone
     = Inr (Serializer 0 person_meta person_fields (PyDict 0) [''nickname''] [],
            heap_with [(''nickname'', PyBool True)]) \<and>
   get_fields (heap_with [(''nickname'', PyBool True)])
      (Serializer 0 person_meta person_fields (PyDict 0) [''nickname''] [])
     = Inl (ParseError ([CHR 0x27] @ ''nickname'' @ [CHR 0x27] @ '' is not a valid field name for '' @
                        [CHR 0x27] @ ''person'' @ [CHR 0x27]))"
proof -
  let ?s = "Serializer 0 person_meta person_fields (PyDict 0) [''nickname''] []"
  let ?h = "heap_with [(''nickname'', PyBool True)]"
  have nm: "name (Meta ?s) = Some ''person''" by (simp add: person_meta_def)
  have un: "''nickname'' \<notin> fst ` set (base_fields ?s)" by (simp add: person_fields_def)
  have i: "init empty_heap (ident ?s) (Meta ?s) (base_fields ?s) no_context (Some [''nickname'']) None PyNone
             = Inr (?s, ?h)"
    by (simp add: init_def request_or_def no_context_def new_dict_def empty_heap_def heap_with_def
          names_or_def)
  have only: "\<forall>k. k \<in> fst ` set (store ?h 0) \<and> k \<notin> fst ` set (base_fields ?s) \<longrightarrow> k = ''nickname''"
    by (simp add: heap_with_def)
  from i have hyp: "directive ?h ?s ''nickname'' \<noteq> None \<or>
         (\<exists>h0 ctx include_arg exclude_arg request_arg.
            init h0 (ident ?s) (Meta ?s) (base_fields ?s) ctx include_arg exclude_arg request_arg = Inr (?s, ?h) \<and>
            (''nickname'' \<in> set (include_fields ?s) \<or> ''nickname'' \<in> set (exclude_fields ?s)))"
    by fastforce
  from unknown_field_rejected [OF un hyp] obtain a n' where
    a: "request_fields ?s = PyDict a" and
    g: "get_fields ?h ?s =
             (case name (Meta ?s) of
                None \<Rightarrow> Inl AttributeError
              | Some entity \<Rightarrow>
                  Inl (ParseError ([CHR 0x27] @ n' @ [CHR 0x27] @ '' is not a valid field name for '' @
                                   [CHR 0x27] @ entity @ [CHR 0x27])))" and
    o: "(\<forall>k. k \<in> fst ` set (store ?h a) \<and> k \<notin> fst ` set (base_fields ?s) \<longrightarrow> k = ''nickname'')
          \<longrightarrow> n' = ''nickname''"
    by blast
  from a have "a = 0" by simp
  with o only have "n' = ''nickname''" by blast
  with g nm have "get_fields ?h ?s
     = Inl (ParseError ([CHR 0x27] @ ''nickname'' @ [CHR 0x27] @ '' is not a valid field name for '' @
                        [CHR 0x27] @ ''person'' @ [CHR 0x27]))" by simp
  with un i show ?thesis by simp
qed

text \<open>
  The claim as stated fails: on a person, the request \<^verbatim>\<open>{zzz: True, aaa: False}\<close> names
  the unknown field \<open>aaa\<close>, and the error names \<open>zzz\<close>; and for a \<^verbatim>\<open>Meta\<close> without a
  name the unknown field \<open>zzz\<close> raises \<^verbatim>\<open>AttributeError\<close>.
\<close>

theorem unknown_field_counterexample:
  "directive (heap_with [(''zzz'', PyBool True), (''aaa'', PyBool False)])
      (Serializer 0 person_meta person_fields (PyDict 0) [] []) ''aaa'' = Some (PyBool False) \<and>
   ''aaa'' \<notin> fst ` set person_fields \<and>
   get_fields (heap_with [(''zzz'', PyBool True), (''aaa'', PyBool False)])
      (Serializer 0 person_meta person_fields (PyDict 0) [] [])
     = Inl (ParseError ([CHR 0x27] @ ''zzz'' @ [CHR 0x27] @ '' is not a valid field name for '' @
                        [CHR 0x27] @ ''person'' @ [CHR 0x27])) \<and>
   get_fields (heap_with [(''zzz'', PyBool True), (''aaa'', PyBool False)])
      (Serializer 0 person_meta person_fields (PyDict 0) [] [])
     \<noteq> Inl (ParseError ([CHR 0x27] @ ''aaa'' @ [CHR 0x27] @ '' is not a valid field name for '' @
                        [CHR 0x27] @ ''person'' @ [CHR 0x27])) \<and>
   get_fields (heap_with [(''zzz'', PyBool True)])
      (Serializer 0 nameless_meta person_fields (PyDict 0) [] [])
     = Inl AttributeError"
proof -
  let ?s = "Serializer 0 person_meta person_fields (PyDict 0) [] []"
  let ?h = "heap_with [(''zzz'', PyBool True), (''aaa'', PyBool False)]"
  have d: "directive ?h ?s ''aaa'' = Some (PyBool False)" by (simp add: directive_def heap_with_def)
  have u: "''aaa'' \<notin> fst ` set person_fields" by (simp add: person_fields_def)
  have g: "get_fields ?h ?s
     = Inl (ParseError ([CHR 0x27] @ ''zzz'' @ [CHR 0x27] @ '' is not a valid field name for '' @
                        [CHR 0x27] @ ''person'' @ [CHR 0x27]))"
    by (simp add: get_fields_def id_only_def request_overrides_def heap_with_def person_fields_def
          person_meta_def invalid_field_message_def)
  have n: "get_fields (heap_with [(''zzz'', PyBool True)])
      (Serializer 0 nameless_meta person_fields (PyDict 0) [] []) = Inl AttributeError"
    by (simp add: get_fields_def id_only_def request_overrides_def heap_with_def person_fields_def
          nameless_meta_def)
  from d u g n show ?thesis by simp
qed

end
